theory Spec2Isabelle
  imports Main
begin

section \<open>JavaScript values used by the bot\<close>

text \<open>
  Text is a list of characters. \<open>data.toString()\<close> of a received buffer is the chunk's
  text; the model starts from that text.
\<close>

datatype js_error = Error string

text \<open>What \<open>await\<close> on a call observes: a value, an exception, or nothing, ever.\<close>

datatype 'a awaited = Returned 'a | Threw js_error | Never

subsection \<open>String methods\<close>

text \<open>
  The white space and line terminators that \<open>String.prototype.trim\<close> removes, among
  the characters below U+0100: tab, line feed, vertical tab, form feed, carriage return,
  space and no-break space.
\<close>

definition isWhiteSpace :: "char \<Rightarrow> bool" where
  "isWhiteSpace c \<longleftrightarrow>
     c = CHR 0x09 \<or> c = CHR 0x0A \<or> c = CHR 0x0B \<or> c = CHR 0x0C \<or> c = CHR 0x0D
     \<or> c = CHR 0x20 \<or> c = CHR 0xA0"

definition trim :: "string \<Rightarrow> string" where
  "trim s = rev (dropWhile isWhiteSpace (rev (dropWhile isWhiteSpace s)))"

text \<open>\<open>text.includes(">")\<close>; \<open>includes\<close> is a keyword of Isabelle.\<close>

definition str_includes :: "string \<Rightarrow> char \<Rightarrow> bool" where
  "str_includes s c \<longleftrightarrow> c \<in> set s"

text \<open>\<open>s.endsWith(">")\<close>\<close>

definition endsWith :: "string \<Rightarrow> char \<Rightarrow> bool" where
  "endsWith s c \<longleftrightarrow> s \<noteq> [] \<and> last s = c"

text \<open>\<open>s.substring(n)\<close>: the text from index \<open>n\<close> on, empty when \<open>n\<close> is past the end.\<close>

definition substring :: "string \<Rightarrow> nat \<Rightarrow> string" where
  "substring s n = drop n s"

section \<open>The Bot class\<close>

text \<open>
  \<open>bot\<close> is the process handle: \<open>None\<close> is \<open>null\<close>, \<open>Some p\<close> refers to the child
  process number \<open>p\<close> of the process table. \<open>decoderConfig\<close> lists the entries of the
  configuration object in the order of \<open>Object.entries\<close>; \<open>'v\<close> is the type of its values.
\<close>

record 'v Bot =
  bot :: "nat option"
  model :: string
  decoderConfig :: "(string \<times> 'v) list"
  executablePath :: string
  modelPath :: string

definition unsupported_message :: "string \<Rightarrow> string" where
  "unsupported_message m =
     ''Model '' @ m @ '' is not supported. Current models supported are: '' @ [CHR 0x0A]
     @ ''                gpt4all-lora-quantized'' @ [CHR 0x0A]
     @ ''                gpt4all-lora-unfiltered-quantized''"

text \<open>The constructor: \<open>Inl\<close> is the thrown error, \<open>Inr\<close> the constructed object.\<close>

definition constructor :: "string \<Rightarrow> (string \<times> 'v) list \<Rightarrow> js_error + 'v Bot" where
  "constructor m cfg =
     (if ''gpt4all-lora-quantized'' \<noteq> m \<and> ''gpt4all-lora-unfiltered-quantized'' \<noteq> m
      then Inl (Error (unsupported_message m))
      else Inr \<lparr> bot = None, model = m, decoderConfig = cfg,
                 executablePath = ''./executables/builtBot'',
                 modelPath = ''./models/'' @ m @ ''.bin'' \<rparr>)"

subsection \<open>Child processes, streams and promises\<close>

text \<open>
  A listener on the \<open>data\<close> event of an output stream is one of two closures:
  the anonymous readiness listener of the \<open>n\<close>-th call of \<open>open\<close>, or the
  \<open>onStdoutData\<close> closure of the \<open>n\<close>-th call of \<open>prompt\<close>. A listener on the
  \<open>error\<close> event is the \<open>onStdoutError\<close> closure of the \<open>n\<close>-th call of \<open>prompt\<close>.
\<close>

datatype listener = ReadyListener nat | OnStdoutData nat

record readable =
  dataListeners :: "listener list"
  errorListeners :: "nat list"

text \<open>
  A child process: the command and arguments it was spawned with, whether \<open>kill\<close> was
  called on it, its input stream (the chunks written so far) and its output stream;
  a stream that is \<open>null\<close> is \<open>None\<close>.
\<close>

record child =
  command :: string
  args :: "string list"
  killed :: bool
  stdin :: "string list option"
  stdout :: "readable option"

datatype 'a promise = Pending | Fulfilled 'a | RejectedWith js_error

text \<open>The variables of one call of \<open>prompt\<close>: the buffer \<open>response\<close> and the promise returned.\<close>

record exchange =
  response :: string
  settled :: "string promise"

text \<open>
  The whole system: the Bot object, every process spawned so far (a process handle is an
  index into this table), the closures of every call of \<open>prompt\<close>, the promise awaited
  by every call of \<open>open\<close>, and the exceptions thrown out of event listeners.
\<close>

record 'v system =
  this :: "'v Bot"
  procs :: "child list"
  exchanges :: "exchange list"
  opened :: "bool promise list"
  uncaught :: "js_error list"

definition initial :: "'v Bot \<Rightarrow> 'v system" where
  "initial b = \<lparr> this = b, procs = [], exchanges = [], opened = [], uncaught = [] \<rparr>"

text \<open>
  \<open>this.bot\<close> with the process it refers to. A handle always refers to a spawned
  process; an index outside the table reads as no handle.
\<close>

definition the_bot :: "'v system \<Rightarrow> (nat \<times> child) option" where
  "the_bot s =
     (case bot (this s) of
        None \<Rightarrow> None
      | Some p \<Rightarrow> if p < length (procs s) then Some (p, procs s ! p) else None)"

text \<open>\<open>this.bot?.stdout\<close>\<close>

definition bot_stdout :: "'v system \<Rightarrow> (nat \<times> readable) option" where
  "bot_stdout s =
     (case the_bot s of
        None \<Rightarrow> None
      | Some (p, c) \<Rightarrow> (case stdout c of None \<Rightarrow> None | Some out \<Rightarrow> Some (p, out)))"

definition update_stdout :: "nat \<Rightarrow> (readable \<Rightarrow> readable) \<Rightarrow> 'v system \<Rightarrow> 'v system" where
  "update_stdout p f s =
     (if p < length (procs s)
      then s\<lparr> procs := (procs s)[p := (procs s ! p)\<lparr> stdout := map_option f (stdout (procs s ! p)) \<rparr>] \<rparr>
      else s)"

text \<open>\<open>emitter.on(event, l)\<close> appends the listener.\<close>

definition on_data :: "nat \<Rightarrow> listener \<Rightarrow> 'v system \<Rightarrow> 'v system" where
  "on_data p l = update_stdout p (\<lambda>out. out\<lparr> dataListeners := dataListeners out @ [l] \<rparr>)"

definition on_error :: "nat \<Rightarrow> nat \<Rightarrow> 'v system \<Rightarrow> 'v system" where
  "on_error p k = update_stdout p (\<lambda>out. out\<lparr> errorListeners := errorListeners out @ [k] \<rparr>)"

text \<open>\<open>emitter.removeListener(event, l)\<close> removes the most recently added instance of \<open>l\<close>.\<close>

definition removeListener :: "'a \<Rightarrow> 'a list \<Rightarrow> 'a list" where
  "removeListener l ls = rev (remove1 l (rev ls))"

definition remove_data :: "nat \<Rightarrow> listener \<Rightarrow> 'v system \<Rightarrow> 'v system" where
  "remove_data p l = update_stdout p (\<lambda>out. out\<lparr> dataListeners := removeListener l (dataListeners out) \<rparr>)"

definition remove_error :: "nat \<Rightarrow> nat \<Rightarrow> 'v system \<Rightarrow> 'v system" where
  "remove_error p k = update_stdout p (\<lambda>out. out\<lparr> errorListeners := removeListener k (errorListeners out) \<rparr>)"

text \<open>Settling a promise has an effect only while it is pending.\<close>

definition settle :: "'a promise \<Rightarrow> 'a promise \<Rightarrow> 'a promise" where
  "settle v p = (case p of Pending \<Rightarrow> v | _ \<Rightarrow> p)"

definition resolve :: "nat \<Rightarrow> string \<Rightarrow> 'v system \<Rightarrow> 'v system" where
  "resolve k v s =
     (if k < length (exchanges s)
      then s\<lparr> exchanges := (exchanges s)[k := (exchanges s ! k)\<lparr> settled := settle (Fulfilled v) (settled (exchanges s ! k)) \<rparr>] \<rparr>
      else s)"

definition reject :: "nat \<Rightarrow> js_error \<Rightarrow> 'v system \<Rightarrow> 'v system" where
  "reject k e s =
     (if k < length (exchanges s)
      then s\<lparr> exchanges := (exchanges s)[k := (exchanges s ! k)\<lparr> settled := settle (RejectedWith e) (settled (exchanges s ! k)) \<rparr>] \<rparr>
      else s)"

definition not_initialized :: js_error where
  "not_initialized = Error ''Bot is not initialized.''"

subsection \<open>close and open\<close>

definition kill :: "nat \<Rightarrow> 'v system \<Rightarrow> 'v system" where
  "kill p s = s\<lparr> procs := (procs s)[p := (procs s ! p)\<lparr> killed := True \<rparr>] \<rparr>"

definition close :: "'v system \<Rightarrow> 'v system" where
  "close s =
     (case bot_stdout s of
        Some (p, out) \<Rightarrow> (kill p s)\<lparr> this := (this s)\<lparr> bot := None \<rparr> \<rparr>
      | None \<Rightarrow> s)"

text \<open>
  The loop of \<open>open\<close> over \<open>Object.entries(this.decoderConfig)\<close>, pushing two arguments
  for each entry; \<open>toString\<close> is \<open>value.toString()\<close> on the strings, numbers and
  booleans that a configuration holds.
\<close>

definition spawnArgs :: "('v \<Rightarrow> string) \<Rightarrow> 'v Bot \<Rightarrow> string list" where
  "spawnArgs toString b =
     foldl (\<lambda>spawnArgs (key, value). spawnArgs @ [''--'' @ key, toString value])
       [executablePath b, ''--model'', modelPath b] (decoderConfig b)"

text \<open>\<open>spawn(command, args, {stdio: ["pipe", "pipe", "ignore"]})\<close>: both streams are pipes.\<close>

definition spawn :: "string \<Rightarrow> string list \<Rightarrow> child" where
  "spawn cmd as =
     \<lparr> command = cmd, args = as, killed = False, stdin = Some [],
       stdout = Some \<lparr> dataListeners = [], errorListeners = [] \<rparr> \<rparr>"

text \<open>
  \<open>open\<close> after its first statement: build the arguments, spawn, store the handle, and
  attach the readiness listener of the promise that the caller then awaits. The method
  itself is \<open>open_bot\<close> (\<open>open\<close> is a keyword of Isabelle). The lines that \<open>open\<close> and
  \<open>close\<close> log are left out.
\<close>

definition open_spawn :: "('v \<Rightarrow> string) \<Rightarrow> 'v system \<Rightarrow> 'v system" where
  "open_spawn toString s =
     (let spawnArgs = spawnArgs toString (this s);
          p = length (procs s);
          s1 = s\<lparr> procs := procs s @ [spawn (hd spawnArgs) (tl spawnArgs)],
                  this := (this s)\<lparr> bot := Some p \<rparr> \<rparr>;
          n = length (opened s1);
          s2 = s1\<lparr> opened := opened s1 @ [Pending] \<rparr>
      in case bot_stdout s2 of
           Some (q, out) \<Rightarrow> on_data q (ReadyListener n) s2
         | None \<Rightarrow> s2)"

definition open_bot :: "('v \<Rightarrow> string) \<Rightarrow> 'v system \<Rightarrow> 'v system" where
  "open_bot toString s =
     open_spawn toString (if bot (this s) \<noteq> None then close s else s)"

subsection \<open>prompt\<close>

definition write_stdin :: "nat \<Rightarrow> string \<Rightarrow> 'v system \<Rightarrow> 'v system" where
  "write_stdin p chunk s =
     s\<lparr> procs := (procs s)[p := (procs s ! p)\<lparr> stdin := map_option (\<lambda>w. w @ [chunk]) (stdin (procs s ! p)) \<rparr>] \<rparr>"

text \<open>
  \<open>prompt\<close> returns the new state and either the error it throws or the number of the
  promise it returns. The executor of the promise runs at once; an exception in it
  rejects the promise.
\<close>

definition prompt :: "string \<Rightarrow> 'v system \<Rightarrow> 'v system \<times> (js_error + nat)" where
  "prompt text s =
     (case the_bot s of
        None \<Rightarrow> (s, Inl not_initialized)
      | Some (p, c) \<Rightarrow>
          if stdin c = None \<or> stdout c = None then (s, Inl not_initialized)
          else
            let s1 = write_stdin p (trim text @ [CHR 0x0A]) s;
                k = length (exchanges s1);
                s2 = s1\<lparr> exchanges := exchanges s1 @ [\<lparr> response = [], settled = Pending \<rparr>] \<rparr>
            in (case bot_stdout s2 of
                  None \<Rightarrow> (reject k not_initialized s2, Inr k)
                | Some (q, out) \<Rightarrow> (on_error q k (on_data q (OnStdoutData k) s2), Inr k)))"

subsection \<open>The listeners\<close>

text \<open>
  A listener returns the state it leaves and the exception it throws, if any.
\<close>

definition terminateAndResolve :: "nat \<Rightarrow> string \<Rightarrow> 'v system \<Rightarrow> 'v system \<times> js_error option" where
  "terminateAndResolve k finalResponse s =
     (case bot_stdout s of
        None \<Rightarrow> (s, Some not_initialized)
      | Some (p, out) \<Rightarrow>
          let s1 = remove_error p k (remove_data p (OnStdoutData k) s);
              finalResponse' = (if endsWith finalResponse CHR ''>'' then butlast finalResponse
                                else finalResponse)
          in (resolve k (trim finalResponse') s1, None))"

definition append_response :: "nat \<Rightarrow> string \<Rightarrow> 'v system \<Rightarrow> 'v system" where
  "append_response k text s =
     (if k < length (exchanges s)
      then s\<lparr> exchanges := (exchanges s)[k := (exchanges s ! k)\<lparr> response := response (exchanges s ! k) @ text \<rparr>] \<rparr>
      else s)"

definition the_response :: "nat \<Rightarrow> 'v system \<Rightarrow> string" where
  "the_response k s = (if k < length (exchanges s) then response (exchanges s ! k) else [])"

definition onStdoutData :: "nat \<Rightarrow> string \<Rightarrow> 'v system \<Rightarrow> 'v system \<times> js_error option" where
  "onStdoutData k text s =
     (case (if str_includes text CHR ''>'' then terminateAndResolve k (the_response k s) s
            else (s, None)) of
        (s1, Some e) \<Rightarrow> (s1, Some e)
      | (s1, None) \<Rightarrow> (append_response k text s1, None))"

definition onStdoutError :: "nat \<Rightarrow> js_error \<Rightarrow> 'v system \<Rightarrow> 'v system \<times> js_error option" where
  "onStdoutError k err s =
     (case bot_stdout s of
        None \<Rightarrow> (s, Some not_initialized)
      | Some (p, out) \<Rightarrow>
          (reject k err (remove_error p k (remove_data p (OnStdoutData k) s)), None))"

text \<open>The readiness listener of \<open>open\<close>: \<open>resolve(true)\<close> on a chunk with the sentinel.\<close>

definition onReady :: "nat \<Rightarrow> string \<Rightarrow> 'v system \<Rightarrow> 'v system \<times> js_error option" where
  "onReady n text s =
     (if str_includes text CHR ''>'' \<and> n < length (opened s)
      then (s\<lparr> opened := (opened s)[n := settle (Fulfilled True) (opened s ! n)] \<rparr>, None)
      else (s, None))"

fun call_data :: "string \<Rightarrow> listener \<Rightarrow> 'v system \<Rightarrow> 'v system \<times> js_error option" where
  "call_data text (ReadyListener n) s = onReady n text s"
| "call_data text (OnStdoutData k) s = onStdoutData k text s"

subsection \<open>Events of the output stream\<close>

text \<open>
  \<open>emit\<close> calls the listeners registered when the event is emitted, in the order of
  their registration. A listener that throws ends the emission: the listeners after it
  are not called and the exception leaves the event handler uncaught.
\<close>

fun emit :: "('s \<Rightarrow> 's \<times> js_error option) list \<Rightarrow> 's \<Rightarrow> 's \<times> js_error option" where
  "emit [] s = (s, None)"
| "emit (l # ls) s = (case l s of (s1, Some e) \<Rightarrow> (s1, Some e) | (s1, None) \<Rightarrow> emit ls s1)"

definition throw_uncaught :: "'v system \<times> js_error option \<Rightarrow> 'v system" where
  "throw_uncaught r = (case r of (s, None) \<Rightarrow> s | (s, Some e) \<Rightarrow> s\<lparr> uncaught := uncaught s @ [e] \<rparr>)"

text \<open>The output stream of process \<open>p\<close> emits \<open>data\<close> with a chunk of text.\<close>

definition emit_data :: "nat \<Rightarrow> string \<Rightarrow> 'v system \<Rightarrow> 'v system" where
  "emit_data p text s =
     (if p < length (procs s)
      then (case stdout (procs s ! p) of
              None \<Rightarrow> s
            | Some out \<Rightarrow> throw_uncaught (emit (map (call_data text) (dataListeners out)) s))
      else s)"

text \<open>
  The output stream of process \<open>p\<close> emits \<open>error\<close>. With no listener registered the
  emitter throws the error itself.
\<close>

definition emit_error :: "nat \<Rightarrow> js_error \<Rightarrow> 'v system \<Rightarrow> 'v system" where
  "emit_error p err s =
     (if p < length (procs s)
      then (case stdout (procs s ! p) of
              None \<Rightarrow> s
            | Some out \<Rightarrow>
                if errorListeners out = [] then throw_uncaught (s, Some err)
                else throw_uncaught (emit (map (\<lambda>k. onStdoutError k err) (errorListeners out)) s))
      else s)"

subsection \<open>Runs\<close>

text \<open>
  What happens to a Bot object, one step at a time: calls of its methods by the HTTP
  layer, and events of the output streams of the processes it spawned.
\<close>

datatype event = Open | Close | Prompt string | Data nat string | StreamError nat js_error

fun exec :: "('v \<Rightarrow> string) \<Rightarrow> event \<Rightarrow> 'v system \<Rightarrow> 'v system" where
  "exec ts Open s = open_bot ts s"
| "exec ts Close s = close s"
| "exec ts (Prompt text) s = fst (prompt text s)"
| "exec ts (Data p text) s = emit_data p text s"
| "exec ts (StreamError p err) s = emit_error p err s"

definition run :: "('v \<Rightarrow> string) \<Rightarrow> event list \<Rightarrow> 'v system \<Rightarrow> 'v system" where
  "run ts evs s = foldl (\<lambda>s ev. exec ts ev s) s evs"

text \<open>The processes on which \<open>kill\<close> was never called.\<close>

definition live :: "'v system \<Rightarrow> nat list" where
  "live s = filter (\<lambda>i. \<not> killed (procs s ! i)) [0..<length (procs s)]"

text \<open>
  \<open>new Bot()\<close>, the object of the HTTP controller: the default model and an empty
  decoder configuration.
\<close>

definition controller_bot :: "string Bot" where
  "controller_bot =
     \<lparr> bot = None, model = ''gpt4all-lora-quantized'', decoderConfig = [],
       executablePath = ''./executables/builtBot'',
       modelPath = ''./models/gpt4all-lora-quantized.bin'' \<rparr>"

section \<open>Provisioning\<close>

text \<open>
  What \<open>init\<close> does to the outside: commands run, HTTP requests, directories made,
  files opened for writing, permissions set, lines logged.
\<close>

datatype effect =
    Exec string
  | HttpGet string
  | Mkdir string
  | CreateWriteStream string
  | Chmod string nat
  | Log string

text \<open>
  The outside, as far as \<open>init\<close> reads it: which paths exist, \<open>os.platform()\<close>, what
  \<open>uname -m\<close> prints (or the error of running it), and for each request, directory, file
  and permission change the error it ends with, if any.
\<close>

record env =
  existsSync :: "string \<Rightarrow> bool"
  platform :: string
  uname_m :: "js_error + string"
  get_error :: "string \<Rightarrow> js_error option"
  mkdir_error :: "string \<Rightarrow> js_error option"
  write_error :: "string \<Rightarrow> js_error option"
  chmod_error :: "string \<Rightarrow> js_error option"

text \<open>
  An asynchronous call, once it has run: \<open>outcome\<close> is how its promise settles (\<open>Inl\<close>
  rejected, \<open>Inr\<close> fulfilled), \<open>effects\<close> what it did, and \<open>thrown\<close> the exceptions thrown
  inside callbacks of the callback-style \<open>fs\<close> functions. Such a function returns
  \<open>undefined\<close> at once, so \<open>await\<close> on it waits for nothing, and an exception thrown by
  its callback is raised later, outside the promise of the caller.
\<close>

record task =
  outcome :: "js_error + unit"
  effects :: "effect list"
  thrown :: "js_error list"

definition callback_throws :: "js_error option \<Rightarrow> js_error list" where
  "callback_throws err = (case err of None \<Rightarrow> [] | Some e \<Rightarrow> [e])"

definition downloadFile :: "env \<Rightarrow> string \<Rightarrow> string \<Rightarrow> task" where
  "downloadFile env url destination =
     (case get_error env url of
        Some e \<Rightarrow> \<lparr> outcome = Inl e, effects = [HttpGet url], thrown = [] \<rparr>
      | None \<Rightarrow>
          \<lparr> outcome = (case write_error env destination of None \<Rightarrow> Inr () | Some e \<Rightarrow> Inl e),
            effects = [HttpGet url, Mkdir ''./executables'', Mkdir ''./models'',
                       CreateWriteStream destination],
            thrown = callback_throws (mkdir_error env ''./executables'')
                     @ callback_throws (mkdir_error env ''./models'') \<rparr>)"

definition unsupported_platform :: "string \<Rightarrow> js_error" where
  "unsupported_platform p =
     Error (''Your platform is not supported: '' @ p
            @ ''. Current binaries supported are for OSX (ARM and Intel), Linux and Windows.'')"

text \<open>The mode \<open>0o755\<close>, octal.\<close>

definition mode_755 :: nat where
  "mode_755 = 7 * 8 * 8 + 5 * 8 + 5"

text \<open>
  The choice of the download address in \<open>downloadExecutable\<close>, with the effects of
  making it.
\<close>

definition upstream :: "env \<Rightarrow> (js_error + string) \<times> effect list" where
  "upstream env =
     (if platform env = ''darwin'' then
        (case uname_m env of
           Inl e \<Rightarrow> (Inl e, [Exec ''uname -m''])
         | Inr out \<Rightarrow>
             (if trim out = ''arm64''
              then Inr ''https://github.com/nomic-ai/gpt4all/blob/main/chat/gpt4all-lora-quantized-OSX-m1?raw=true''
              else Inr ''https://github.com/nomic-ai/gpt4all/blob/main/chat/gpt4all-lora-quantized-OSX-intel?raw=true'',
              [Exec ''uname -m'']))
      else if platform env = ''linux'' then
        (Inr ''https://github.com/nomic-ai/gpt4all/blob/main/chat/gpt4all-lora-quantized-linux-x86?raw=true'', [])
      else if platform env = ''win32'' then
        (Inr ''https://github.com/nomic-ai/gpt4all/blob/main/chat/gpt4all-lora-quantized-win64.exe?raw=true'', [])
      else (Inl (unsupported_platform (platform env)), []))"

definition downloadExecutable :: "env \<Rightarrow> 'v Bot \<Rightarrow> task" where
  "downloadExecutable env b =
     (case upstream env of
        (Inl e, effs) \<Rightarrow> \<lparr> outcome = Inl e, effects = effs, thrown = [] \<rparr>
      | (Inr url, effs) \<Rightarrow>
          (let d = downloadFile env url (executablePath b) in
           case outcome d of
             Inl e \<Rightarrow> d\<lparr> effects := effs @ effects d \<rparr>
           | Inr _ \<Rightarrow>
               \<lparr> outcome = Inr (),
                 effects = effs @ effects d
                           @ [Chmod (executablePath b) mode_755,
                              Log (''File downloaded successfully to '' @ executablePath b)],
                 thrown = thrown d @ callback_throws (chmod_error env (executablePath b)) \<rparr>))"

definition modelUrl :: "'v Bot \<Rightarrow> string" where
  "modelUrl b = ''https://the-eye.eu/public/AI/models/nomic-ai/gpt4all/'' @ model b @ ''.bin''"

definition downloadModel :: "env \<Rightarrow> 'v Bot \<Rightarrow> task" where
  "downloadModel env b =
     (let d = downloadFile env (modelUrl b) (modelPath b) in
      case outcome d of
        Inl e \<Rightarrow> d
      | Inr _ \<Rightarrow> d\<lparr> effects := effects d @ [Log (''File downloaded successfully to '' @ modelPath b)] \<rparr>)"

text \<open>The list \<open>downloadPromises\<close> of \<open>init\<close>: every task in it has been started.\<close>

definition downloadPromises :: "env \<Rightarrow> 'v Bot \<Rightarrow> task list" where
  "downloadPromises env b =
     (if \<not> existsSync env (executablePath b) then [downloadExecutable env b] else [])
     @ (if \<not> existsSync env (modelPath b) then [downloadModel env b] else [])"

text \<open>
  \<open>Promise.all\<close>: fulfilled when every task is, rejected with the error of a rejected
  task otherwise (here the first one of the list).
\<close>

fun promise_all :: "task list \<Rightarrow> js_error + unit" where
  "promise_all [] = Inr ()"
| "promise_all (t # ts) = (case outcome t of Inl e \<Rightarrow> Inl e | Inr _ \<Rightarrow> promise_all ts)"

text \<open>
  \<open>init\<close>. The tasks of \<open>downloadPromises\<close> run at the same time; their effects are
  listed task by task.
\<close>

definition init :: "env \<Rightarrow> 'v Bot \<Rightarrow> task" where
  "init env b =
     (let downloadPromises = downloadPromises env b in
      \<lparr> outcome = promise_all downloadPromises,
        effects = concat (map effects downloadPromises)
                  @ (case promise_all downloadPromises of
                       Inl e \<Rightarrow> [] | Inr _ \<Rightarrow> [Log ''Bot initialized.'']),
        thrown = concat (map thrown downloadPromises) \<rparr>)"

text \<open>A Linux host with nothing downloaded yet, on which \<open>chmod\<close> fails.\<close>

definition chmod_fails :: env where
  "chmod_fails =
     \<lparr> existsSync = (\<lambda>path. False), platform = ''linux'', uname_m = Inr ''x86_64'',
       get_error = (\<lambda>url. None), mkdir_error = (\<lambda>path. None), write_error = (\<lambda>path. None),
       chmod_error = (\<lambda>path. Some (Error ''EPERM: operation not permitted'')) \<rparr>"

text \<open>A Linux host on which both files are already there.\<close>

definition provisioned :: env where
  "provisioned =
     \<lparr> existsSync = (\<lambda>path. True), platform = ''linux'', uname_m = Inr ''x86_64'',
       get_error = (\<lambda>url. None), mkdir_error = (\<lambda>path. None), write_error = (\<lambda>path. None),
       chmod_error = (\<lambda>path. None) \<rparr>"

section \<open>The HTTP controller\<close>

record http_response =
  status :: nat
  message :: string

text \<open>
  \<open>promptBot\<close>: \<open>req\<close> is \<open>req.body.prompt\<close> (\<open>None\<close> when the field is missing),
  \<open>bot_prompt\<close> is what \<open>await bot.prompt(prompt)\<close> observes. The result is the
  response sent, \<open>None\<close> when the awaited call never settles and nothing is sent.
\<close>

definition promptBot :: "(string \<Rightarrow> string awaited) \<Rightarrow> string option \<Rightarrow> http_response option" where
  "promptBot bot_prompt req =
     (case req of
        None \<Rightarrow> Some \<lparr> status = 400, message = ''Prompt is required.'' \<rparr>
      | Some p \<Rightarrow>
          if p = [] then Some \<lparr> status = 400, message = ''Prompt is required.'' \<rparr>
          else (case bot_prompt p of
                  Returned answer \<Rightarrow> Some \<lparr> status = 200, message = substring answer 13 \<rparr>
                | Threw e \<Rightarrow> Some \<lparr> status = 500, message = ''Error prompting bot.'' \<rparr>
                | Never \<Rightarrow> None))"

section \<open>Notions used in the proofs\<close>

subsection \<open>Views of a state\<close>

text \<open>
  The listeners attached to the output stream of process \<open>p\<close>; \<open>current p s\<close> says
  that the handle refers to \<open>p\<close> and that \<open>p\<close> has an output stream;
  \<open>detach\<close> is the pair of \<open>removeListener\<close> calls shared by \<open>onStdoutError\<close> and
  \<open>terminateAndResolve\<close>; \<open>receive\<close> is what one call of \<open>onStdoutData\<close> on the
  current process does to the variables of its own exchange.
\<close>

definition data_listeners :: "nat \<Rightarrow> 'v system \<Rightarrow> listener list" where
  "data_listeners p s =
     (if p < length (procs s)
      then (case stdout (procs s ! p) of None \<Rightarrow> [] | Some out \<Rightarrow> dataListeners out)
      else [])"

definition error_listeners :: "nat \<Rightarrow> 'v system \<Rightarrow> nat list" where
  "error_listeners p s =
     (if p < length (procs s)
      then (case stdout (procs s ! p) of None \<Rightarrow> [] | Some out \<Rightarrow> errorListeners out)
      else [])"


definition current :: "nat \<Rightarrow> 'v system \<Rightarrow> bool" where
  "current p s \<longleftrightarrow>
     bot (this s) = Some p \<and> p < length (procs s) \<and> stdout (procs s ! p) \<noteq> None"

definition detach :: "nat \<Rightarrow> nat \<Rightarrow> 'v system \<Rightarrow> 'v system" where
  "detach p k s = remove_error p k (remove_data p (OnStdoutData k) s)"



subsection \<open>Well-formed states\<close>

text \<open>
  \<open>shrinks s s'\<close>: from \<open>s\<close> to \<open>s'\<close> the handle, the number of exchanges and each
  process stay as they are, except that listeners may have been removed. This is all an
  event of an output stream can do. \<open>wf\<close> collects what holds in every state
  reached from a constructed Bot: the handle refers to a spawned process with both
  streams, exactly the process of the handle has not been killed, and the listeners of
  every stream are distinct and belong to calls of \<open>prompt\<close> that were made.
\<close>

definition stream_shrinks :: "readable option \<Rightarrow> readable option \<Rightarrow> bool" where
  "stream_shrinks a b =
     (case a of
        None \<Rightarrow> b = None
      | Some out \<Rightarrow>
          (case b of
             None \<Rightarrow> False
           | Some out' \<Rightarrow>
               set (dataListeners out') \<subseteq> set (dataListeners out)
               \<and> (distinct (dataListeners out) \<longrightarrow> distinct (dataListeners out'))
               \<and> set (errorListeners out') \<subseteq> set (errorListeners out)
               \<and> (distinct (errorListeners out) \<longrightarrow> distinct (errorListeners out'))))"

definition child_shrinks :: "child \<Rightarrow> child \<Rightarrow> bool" where
  "child_shrinks c c' \<longleftrightarrow>
     command c' = command c \<and> args c' = args c \<and> killed c' = killed c \<and> stdin c' = stdin c
     \<and> stream_shrinks (stdout c) (stdout c')"

definition shrinks :: "'v system \<Rightarrow> 'v system \<Rightarrow> bool" where
  "shrinks s s' \<longleftrightarrow>
     this s' = this s \<and> length (exchanges s') = length (exchanges s)
     \<and> list_all2 child_shrinks (procs s) (procs s')"

definition handle_ok :: "'v system \<Rightarrow> bool" where
  "handle_ok s \<longleftrightarrow>
     (\<forall>p. bot (this s) = Some p \<longrightarrow>
        p < length (procs s) \<and> stdin (procs s ! p) \<noteq> None \<and> stdout (procs s ! p) \<noteq> None)"

definition one_live :: "'v system \<Rightarrow> bool" where
  "one_live s \<longleftrightarrow> (\<forall>i < length (procs s). killed (procs s ! i) \<longleftrightarrow> bot (this s) \<noteq> Some i)"

definition listeners_ok :: "'v system \<Rightarrow> bool" where
  "listeners_ok s \<longleftrightarrow>
     (\<forall>i < length (procs s). \<forall>out. stdout (procs s ! i) = Some out \<longrightarrow>
        distinct (dataListeners out) \<and> distinct (errorListeners out)
        \<and> (\<forall>k. OnStdoutData k \<in> set (dataListeners out) \<longrightarrow> k < length (exchanges s))
        \<and> (\<forall>k \<in> set (errorListeners out). k < length (exchanges s)))"

definition wf :: "'v system \<Rightarrow> bool" where
  "wf s \<longleftrightarrow> handle_ok s \<and> one_live s \<and> listeners_ok s"

section \<open>Construction\<close>

text \<open>
  C9. Construction throws exactly when the model name is neither
  \<open>gpt4all-lora-quantized\<close> nor \<open>gpt4all-lora-unfiltered-quantized\<close>. For a supported
  name it returns an object with no process handle, the executable path
  \<open>./executables/builtBot\<close> and the model path \<open>./models/<name>.bin\<close>.
\<close>

theorem constructor_supported:
  "(isl (constructor m cfg) \<longleftrightarrow>
      m \<notin> {''gpt4all-lora-quantized'', ''gpt4all-lora-unfiltered-quantized''})
   \<and> (m \<in> {''gpt4all-lora-quantized'', ''gpt4all-lora-unfiltered-quantized''} \<longrightarrow>
        constructor m cfg =
          Inr \<lparr> bot = None, model = m, decoderConfig = cfg,
                executablePath = ''./executables/builtBot'',
                modelPath = ''./models/'' @ m @ ''.bin'' \<rparr>)"
  unfolding constructor_def by auto

theorem constructor_supported_witness:
  "''gpt4all-lora-quantized'' \<in> {''gpt4all-lora-quantized'', ''gpt4all-lora-unfiltered-quantized''}
   \<and> constructor ''gpt4all-lora-quantized'' [(''threads'', ''4'')] =
       Inr \<lparr> bot = None, model = ''gpt4all-lora-quantized'',
             decoderConfig = [(''threads'', ''4'')],
             executablePath = ''./executables/builtBot'',
             modelPath = ''./models/gpt4all-lora-quantized.bin'' \<rparr>"
  using constructor_supported [of "''gpt4all-lora-quantized''" "[(''threads'', ''4'')]"]
  by simp

section \<open>The prompt endpoint\<close>

text \<open>
  C10. Whenever \<open>promptBot\<close> answers with status 200, the request carried a non-empty
  prompt, \<open>bot.prompt\<close> returned a text, and the message of the answer is that text
  without its first 13 characters; a text of at most 13 characters gives the empty message.
\<close>

theorem promptBot_message:
  assumes "promptBot bot_prompt req = Some res" and "status res = 200"
  shows "\<exists>p answer. req = Some p \<and> p \<noteq> [] \<and> bot_prompt p = Returned answer
           \<and> message res = drop 13 answer
           \<and> (length answer \<le> 13 \<longrightarrow> message res = [])"
  using assms
  by (auto simp: promptBot_def substring_def split: option.splits if_splits awaited.splits)

theorem promptBot_message_witness:
  "promptBot (\<lambda>p. Returned ''Hello, world! How are you?'') (Some ''hi'')
     = Some \<lparr> status = 200, message = '' How are you?'' \<rparr>
   \<and> (\<exists>p answer. Some ''hi'' = Some p \<and> p \<noteq> []
         \<and> (\<lambda>p. Returned ''Hello, world! How are you?'') p = Returned answer
         \<and> message \<lparr> status = 200, message = '' How are you?'' \<rparr> = drop 13 answer
         \<and> (length answer \<le> 13 \<longrightarrow> message \<lparr> status = 200, message = '' How are you?'' \<rparr> = []))"
proof -
  have run: "promptBot (\<lambda>p. Returned ''Hello, world! How are you?'') (Some ''hi'')
     = Some \<lparr> status = 200, message = '' How are you?'' \<rparr>"
    by (simp add: promptBot_def substring_def)
  have ok: "status \<lparr> status = 200, message = '' How are you?'' \<rparr> = 200"
    by simp
  from promptBot_message [OF run ok] run show ?thesis by simp
qed

section \<open>The argument vector\<close>

lemma foldl_push:
  "foldl (\<lambda>acc (key, value). acc @ [f key, g value]) acc0 cfg
     = acc0 @ concat (map (\<lambda>(key, value). [f key, g value]) cfg)"
  by (induction cfg arbitrary: acc0) (auto split: prod.splits)

lemma spawnArgs_eq:
  "spawnArgs ts b =
     [executablePath b, ''--model'', modelPath b]
     @ concat (map (\<lambda>(key, value). [''--'' @ key, ts value]) (decoderConfig b))"
  unfolding spawnArgs_def by (rule foldl_push)

lemma close_this:
  "this (close s) = (this s)\<lparr> bot := (if bot_stdout s = None then bot (this s) else None) \<rparr>"
  by (cases "bot_stdout s") (auto simp: close_def kill_def)

lemma close_length_procs: "length (procs (close s)) = length (procs s)"
  by (auto simp: close_def kill_def split: option.splits)

lemma spawnArgs_bot_update: "spawnArgs ts (b\<lparr> bot := h \<rparr>) = spawnArgs ts b"
  by (simp add: spawnArgs_def)

lemma open_spawn_procs:
  "procs (open_spawn ts s) =
     procs s @ [(spawn (hd (spawnArgs ts (this s))) (tl (spawnArgs ts (this s))))
                 \<lparr> stdout := Some \<lparr> dataListeners = [ReadyListener (length (opened s))],
                                    errorListeners = [] \<rparr> \<rparr>]"
  by (simp add: open_spawn_def Let_def bot_stdout_def the_bot_def on_data_def update_stdout_def
      spawn_def)

lemma open_spawn_this: "this (open_spawn ts s) = (this s)\<lparr> bot := Some (length (procs s)) \<rparr>"
  by (simp add: open_spawn_def Let_def bot_stdout_def the_bot_def on_data_def update_stdout_def
      spawn_def)

text \<open>
  C8. The arguments built by \<open>open\<close> are the executable path, \<open>--model\<close>, the model
  path, and then for each entry of the decoder configuration, in the order of its entries,
  \<open>--\<close> followed by the key and the value's string. \<open>open\<close> spawns exactly one
  process, with this command and these arguments, and stores its handle.
\<close>

theorem open_argument_vector:
  "spawnArgs ts (this s) =
     [executablePath (this s), ''--model'', modelPath (this s)]
     @ concat (map (\<lambda>(key, value). [''--'' @ key, ts value]) (decoderConfig (this s)))
   \<and> length (procs (open_bot ts s)) = Suc (length (procs s))
   \<and> bot (this (open_bot ts s)) = Some (length (procs s))
   \<and> command (procs (open_bot ts s) ! length (procs s))
       # args (procs (open_bot ts s) ! length (procs s)) = spawnArgs ts (this s)"
proof -
  let ?s0 = "if bot (this s) \<noteq> None then close s else s"
  have len: "length (procs ?s0) = length (procs s)"
    by (simp add: close_length_procs)
  have args: "spawnArgs ts (this ?s0) = spawnArgs ts (this s)"
    by (simp add: close_this spawnArgs_bot_update)
  have ne: "spawnArgs ts (this s) \<noteq> []"
    by (simp add: spawnArgs_eq)
  have new: "procs (open_bot ts s) ! length (procs s) =
      (spawn (hd (spawnArgs ts (this s))) (tl (spawnArgs ts (this s))))
        \<lparr> stdout := Some \<lparr> dataListeners = [ReadyListener (length (opened ?s0))],
                           errorListeners = [] \<rparr> \<rparr>"
    unfolding open_bot_def open_spawn_procs args
    using len by (simp add: nth_append)
  have "length (procs (open_bot ts s)) = Suc (length (procs s))"
    unfolding open_bot_def open_spawn_procs using len by simp
  moreover have "bot (this (open_bot ts s)) = Some (length (procs s))"
    unfolding open_bot_def open_spawn_this using len by simp
  moreover have "command (procs (open_bot ts s) ! length (procs s))
       # args (procs (open_bot ts s) ! length (procs s)) = spawnArgs ts (this s)"
    unfolding new using ne by (simp add: spawn_def)
  ultimately show ?thesis
    using spawnArgs_eq by blast
qed

section \<open>prompt without a running process\<close>

text \<open>
  C4. \<open>prompt\<close> throws "Bot is not initialized." exactly when there is no process handle
  or the handle's input or output stream is missing. When it throws, the state is the one
  before the call: nothing was written and no process was spawned. With a handle and
  both streams it throws nothing and returns a promise.
\<close>

theorem prompt_not_running:
  "(snd (prompt text s) = Inl not_initialized \<longleftrightarrow>
      (the_bot s = None \<or> (\<exists>p c. the_bot s = Some (p, c) \<and> (stdin c = None \<or> stdout c = None))))
   \<and> (\<forall>e. snd (prompt text s) = Inl e \<longrightarrow> e = not_initialized \<and> fst (prompt text s) = s)
   \<and> (\<forall>p c. the_bot s = Some (p, c) \<and> stdin c \<noteq> None \<and> stdout c \<noteq> None \<longrightarrow>
         (\<exists>k. snd (prompt text s) = Inr k))"
  by (auto simp: prompt_def Let_def split: option.splits prod.splits)

theorem prompt_not_running_witness:
  "the_bot (initial controller_bot) = None
   \<and> prompt ''hello'' (initial controller_bot) = (initial controller_bot, Inl not_initialized)
   \<and> (\<exists>p c. the_bot (open_bot (\<lambda>v. v) (initial controller_bot)) = Some (p, c)
         \<and> stdin c \<noteq> None \<and> stdout c \<noteq> None)
   \<and> snd (prompt ''hello'' (open_bot (\<lambda>v. v) (initial controller_bot))) = Inr 0"
proof -
  let ?s = "initial controller_bot"
  let ?t = "open_bot (\<lambda>v. v) (initial controller_bot)"
  have none: "the_bot ?s = None"
    by (simp add: the_bot_def initial_def controller_bot_def)
  have t: "the_bot ?t = Some (0, procs ?t ! 0) \<and> stdin (procs ?t ! 0) \<noteq> None
           \<and> stdout (procs ?t ! 0) \<noteq> None"
    by code_simp
  have r: "snd (prompt ''hello'' ?t) = Inr 0"
    by code_simp
  from prompt_not_running [of "''hello''" ?s] none
  have "prompt ''hello'' ?s = (?s, Inl not_initialized)"
    by (metis prod.collapse)
  moreover from prompt_not_running [of "''hello''" ?t] t
  have "\<exists>k. snd (prompt ''hello'' ?t) = Inr k"
    by blast
  ultimately show ?thesis
    using none t r by blast
qed

section \<open>One exchange\<close>

text \<open>
  C1, at the input of the specification: the process is open and ready, \<open>prompt("hello")\<close>
  is called, and the child answers with the single chunk \<open>world>\<close>. \<open>onStdoutData\<close>
  calls \<open>terminateAndResolve(response)\<close> before it appends the chunk, so the promise
  is resolved with the empty buffer; the chunk is appended only afterwards. Both
  listeners of the call are detached.
\<close>

theorem prompt_hello_world:
  "exchanges (run (\<lambda>v. v) [Open, Data 0 ''>'', Prompt ''hello'', Data 0 ''world>'']
               (initial controller_bot))
     = [\<lparr> response = ''world>'', settled = Fulfilled [] \<rparr>]
   \<and> map stdout (procs (run (\<lambda>v. v) [Open, Data 0 ''>'', Prompt ''hello'', Data 0 ''world>'']
               (initial controller_bot)))
     = [Some \<lparr> dataListeners = [ReadyListener 0], errorListeners = [] \<rparr>]"
  by code_simp

section \<open>Well-formed states\<close>

subsection \<open>Events of an output stream only remove listeners\<close>

lemma stream_shrinks_refl: "stream_shrinks a a"
  by (simp add: stream_shrinks_def split: option.splits)

lemma stream_shrinks_trans: "stream_shrinks a b \<Longrightarrow> stream_shrinks b c \<Longrightarrow> stream_shrinks a c"
  by (auto simp: stream_shrinks_def split: option.splits)

lemma child_shrinks_refl: "child_shrinks c c"
  by (simp add: child_shrinks_def stream_shrinks_refl)

lemma child_shrinks_trans: "child_shrinks a b \<Longrightarrow> child_shrinks b c \<Longrightarrow> child_shrinks a c"
  by (auto simp: child_shrinks_def intro: stream_shrinks_trans)

lemma shrinks_refl: "shrinks s s"
  by (simp add: shrinks_def list_all2_refl child_shrinks_refl)

lemma shrinks_trans: "shrinks a b \<Longrightarrow> shrinks b c \<Longrightarrow> shrinks a c"
  unfolding shrinks_def
  by (auto intro: list_all2_trans [where ?P1.0 = child_shrinks and ?P2.0 = child_shrinks, OF child_shrinks_trans])

lemma set_removeListener: "set (removeListener l ls) \<subseteq> set ls"
  using set_remove1_subset [of l "rev ls"] by (simp add: removeListener_def)

lemma distinct_removeListener: "distinct ls \<Longrightarrow> distinct (removeListener l ls)"
  by (simp add: removeListener_def)

lemma removeListener_distinct: "distinct ls \<Longrightarrow> removeListener l ls = filter (\<lambda>x. x \<noteq> l) ls"
proof -
  assume d: "distinct ls"
  then have "remove1 l (rev ls) = filter (\<lambda>x. x \<noteq> l) (rev ls)"
    by (simp add: distinct_remove1_removeAll removeAll_filter_not_eq) metis
  then show ?thesis
    by (simp add: removeListener_def rev_filter)
qed

lemma shrinks_update_stdout:
  assumes "\<And>out. stream_shrinks (Some out) (Some (f out))"
  shows "shrinks s (update_stdout p f s)"
proof -
  have "list_all2 child_shrinks (procs s) ((procs s)[p := (procs s ! p)\<lparr> stdout := map_option f (stdout (procs s ! p)) \<rparr>])"
    if "p < length (procs s)"
    unfolding list_all2_conv_all_nth
    using that assms
    by (auto simp: nth_list_update child_shrinks_def stream_shrinks_refl
          stream_shrinks_def split: option.splits)
  then show ?thesis
    by (auto simp: shrinks_def update_stdout_def list_all2_refl child_shrinks_refl)
qed

lemma shrinks_remove_data: "shrinks s (remove_data p l s)"
  unfolding remove_data_def
  by (rule shrinks_update_stdout)
     (simp add: stream_shrinks_def distinct_removeListener set_removeListener)

lemma shrinks_remove_error: "shrinks s (remove_error p k s)"
  unfolding remove_error_def
  by (rule shrinks_update_stdout)
     (simp add: stream_shrinks_def distinct_removeListener set_removeListener)

lemma shrinks_resolve: "shrinks s (resolve k v s)"
  by (simp add: shrinks_def resolve_def list_all2_refl child_shrinks_refl)

lemma shrinks_reject: "shrinks s (reject k e s)"
  by (simp add: shrinks_def reject_def list_all2_refl child_shrinks_refl)

lemma shrinks_append_response: "shrinks s (append_response k t s)"
  by (simp add: shrinks_def append_response_def list_all2_refl child_shrinks_refl)

lemma shrinks_terminateAndResolve: "shrinks s (fst (terminateAndResolve k r s))"
  unfolding terminateAndResolve_def Let_def
  by (auto split: option.splits simp: shrinks_refl
      intro: shrinks_trans [OF shrinks_remove_data shrinks_trans [OF shrinks_remove_error shrinks_resolve]])

lemma shrinks_onStdoutData: "shrinks s (fst (onStdoutData k t s))"
proof (cases "str_includes t CHR ''>''")
  case False
  then show ?thesis
    by (simp add: onStdoutData_def shrinks_append_response)
next
  case True
  obtain s1 r where t: "terminateAndResolve k (the_response k s) s = (s1, r)"
    by (cases "terminateAndResolve k (the_response k s) s")
  with shrinks_terminateAndResolve [of s k "the_response k s"] have s1: "shrinks s s1"
    by simp
  show ?thesis
  proof (cases r)
    case None
    with True t s1 show ?thesis
      by (auto simp: onStdoutData_def intro: shrinks_trans [OF _ shrinks_append_response])
  next
    case (Some e)
    with True t s1 show ?thesis
      by (simp add: onStdoutData_def)
  qed
qed

lemma shrinks_onStdoutError: "shrinks s (fst (onStdoutError k e s))"
  unfolding onStdoutError_def
  by (auto split: option.splits simp: shrinks_refl
      intro: shrinks_trans [OF shrinks_remove_data shrinks_trans [OF shrinks_remove_error shrinks_reject]])

lemma shrinks_onReady: "shrinks s (fst (onReady n t s))"
  by (simp add: shrinks_def onReady_def list_all2_refl child_shrinks_refl)

lemma shrinks_call_data: "shrinks s (fst (call_data t l s))"
  by (cases l) (simp_all add: shrinks_onReady shrinks_onStdoutData)

lemma shrinks_emit:
  assumes "\<And>l s. l \<in> set ls \<Longrightarrow> shrinks s (fst (l s))"
  shows "shrinks s (fst (emit ls s))"
  using assms
proof (induction ls arbitrary: s)
  case Nil
  then show ?case by (simp add: shrinks_refl)
next
  case (Cons l ls)
  have step: "shrinks s (fst (l s))"
    using Cons.prems by simp
  show ?case
  proof (cases "l s")
    case (Pair s1 r)
    show ?thesis
    proof (cases r)
      case None
      have "shrinks s1 (fst (emit ls s1))"
        using Cons.IH Cons.prems by simp
      with step Pair None show ?thesis
        by (auto intro: shrinks_trans)
    next
      case (Some e)
      with step Pair show ?thesis by simp
    qed
  qed
qed

lemma shrinks_throw_uncaught: "shrinks s (fst r) \<Longrightarrow> shrinks s (throw_uncaught r)"
  by (cases r) (auto simp: throw_uncaught_def shrinks_def split: option.splits)

lemma shrinks_emit_data: "shrinks s (emit_data p t s)"
  unfolding emit_data_def
  by (auto split: option.splits simp: shrinks_refl
      intro!: shrinks_throw_uncaught shrinks_emit shrinks_call_data)

lemma shrinks_emit_error: "shrinks s (emit_error p e s)"
  unfolding emit_error_def
  by (auto split: option.splits simp: shrinks_refl
      intro!: shrinks_throw_uncaught shrinks_emit shrinks_onStdoutError)

lemma wf_shrinks:
  assumes "wf s" and "shrinks s s'"
  shows "wf s'"
proof -
  from assms(2) have th: "this s' = this s" and le: "length (exchanges s') = length (exchanges s)"
    and len: "length (procs s') = length (procs s)"
    and ch: "\<And>i. i < length (procs s) \<Longrightarrow> child_shrinks (procs s ! i) (procs s' ! i)"
    by (auto simp: shrinks_def list_all2_conv_all_nth)
  have "handle_ok s'"
    using assms(1) th len ch
    by (fastforce simp: wf_def handle_ok_def child_shrinks_def stream_shrinks_def split: option.splits)
  moreover have "one_live s'"
    using assms(1) th len ch
    by (auto simp: wf_def one_live_def child_shrinks_def)
  moreover have "listeners_ok s'"
    unfolding listeners_ok_def
  proof (intro allI impI)
    fix i out'
    assume i: "i < length (procs s')" and o: "stdout (procs s' ! i) = Some out'"
    from i len ch have c: "child_shrinks (procs s ! i) (procs s' ! i)" by simp
    with o obtain out where out: "stdout (procs s ! i) = Some out"
      and sub: "set (dataListeners out') \<subseteq> set (dataListeners out)"
        "distinct (dataListeners out) \<longrightarrow> distinct (dataListeners out')"
        "set (errorListeners out') \<subseteq> set (errorListeners out)"
        "distinct (errorListeners out) \<longrightarrow> distinct (errorListeners out')"
      by (auto simp: child_shrinks_def stream_shrinks_def split: option.splits)
    from assms(1) i len out have ok:
      "distinct (dataListeners out)" "distinct (errorListeners out)"
      "\<forall>k. OnStdoutData k \<in> set (dataListeners out) \<longrightarrow> k < length (exchanges s)"
      "\<forall>k \<in> set (errorListeners out). k < length (exchanges s)"
      by (auto simp: wf_def listeners_ok_def)
    with sub le show "distinct (dataListeners out') \<and> distinct (errorListeners out')
        \<and> (\<forall>k. OnStdoutData k \<in> set (dataListeners out') \<longrightarrow> k < length (exchanges s'))
        \<and> (\<forall>k \<in> set (errorListeners out'). k < length (exchanges s'))"
      by auto
  qed
  ultimately show ?thesis by (simp add: wf_def)
qed

subsection \<open>The methods keep a state well-formed\<close>

lemma wf_initial: "bot b = None \<Longrightarrow> wf (initial b)"
  by (simp add: wf_def handle_ok_def one_live_def listeners_ok_def initial_def)

lemma bot_stdout_Some_iff:
  "bot_stdout s = Some (p, out) \<longleftrightarrow>
     bot (this s) = Some p \<and> p < length (procs s) \<and> stdout (procs s ! p) = Some out"
  by (auto simp: bot_stdout_def the_bot_def split: option.splits)

lemma wf_bot_stdout:
  "wf s \<Longrightarrow> bot (this s) = Some p \<Longrightarrow> \<exists>out. bot_stdout s = Some (p, out)"
  by (auto simp: wf_def handle_ok_def bot_stdout_Some_iff)

lemma wf_close: "wf s \<Longrightarrow> wf (close s)"
proof (cases "bot_stdout s")
  case None
  assume "wf s"
  with None show ?thesis by (simp add: close_def)
next
  case (Some a)
  assume w: "wf s"
  obtain p out where a: "a = (p, out)" by (cases a)
  with Some have b: "bot (this s) = Some p" "p < length (procs s)"
    by (simp_all add: bot_stdout_Some_iff)
  have c: "close s = (kill p s)\<lparr> this := (this s)\<lparr> bot := None \<rparr> \<rparr>"
    using Some a by (simp add: close_def)
  have "handle_ok (close s)"
    by (simp add: c handle_ok_def)
  moreover have "one_live (close s)"
    using w b by (auto simp: c one_live_def wf_def kill_def nth_list_update)
  moreover have "listeners_ok (close s)"
    using w b by (auto simp: c listeners_ok_def wf_def kill_def nth_list_update)
  ultimately show ?thesis by (simp add: wf_def)
qed

lemma close_bot_None: "wf s \<Longrightarrow> bot (this s) \<noteq> None \<Longrightarrow> bot (this (close s)) = None"
  using wf_bot_stdout [of s] by (auto simp: close_def)

lemma wf_open_spawn:
  assumes "wf s" and "bot (this s) = None"
  shows "wf (open_spawn ts s)"
proof -
  have "handle_ok (open_spawn ts s)"
    by (simp add: handle_ok_def open_spawn_this open_spawn_procs spawn_def)
  moreover have "one_live (open_spawn ts s)"
    using assms
    by (auto simp: one_live_def wf_def open_spawn_this open_spawn_procs spawn_def nth_append)
  moreover have "exchanges (open_spawn ts s) = exchanges s"
    by (simp add: open_spawn_def Let_def bot_stdout_def the_bot_def on_data_def update_stdout_def
        spawn_def)
  then have "listeners_ok (open_spawn ts s)"
    using assms
    by (auto simp: listeners_ok_def wf_def open_spawn_procs spawn_def nth_append less_Suc_eq)
  ultimately show ?thesis by (simp add: wf_def)
qed

lemma wf_open_bot: "wf s \<Longrightarrow> wf (open_bot ts s)"
  unfolding open_bot_def
  by (auto intro!: wf_open_spawn wf_close close_bot_None)

lemma prompt_Inr:
  assumes "bot (this s) = Some p" and "p < length (procs s)"
    and "stdin (procs s ! p) \<noteq> None" and "stdout (procs s ! p) = Some out"
  shows "prompt t s =
    (s\<lparr> procs := (procs s)[p := (procs s ! p)
            \<lparr> stdin := map_option (\<lambda>w. w @ [trim t @ [CHR 0x0A]]) (stdin (procs s ! p)),
              stdout := Some (out\<lparr> dataListeners := dataListeners out @ [OnStdoutData (length (exchanges s))],
                                  errorListeners := errorListeners out @ [length (exchanges s)] \<rparr>) \<rparr>],
         exchanges := exchanges s @ [\<lparr> response = [], settled = Pending \<rparr>] \<rparr>,
     Inr (length (exchanges s)))"
  using assms
  by (simp add: prompt_def the_bot_def Let_def write_stdin_def bot_stdout_def on_data_def
      on_error_def update_stdout_def)

lemma wf_prompt:
  assumes "wf s"
  shows "wf (fst (prompt t s))"
proof (cases "bot (this s)")
  case None
  then have "prompt t s = (s, Inl not_initialized)"
    by (simp add: prompt_def the_bot_def)
  with assms show ?thesis by simp
next
  case (Some p)
  with assms obtain out where p: "p < length (procs s)" "stdin (procs s ! p) \<noteq> None"
      "stdout (procs s ! p) = Some out"
    by (auto simp: wf_def handle_ok_def)
  note eq = prompt_Inr [OF Some p]
  have "handle_ok (fst (prompt t s))"
    using assms Some p by (auto simp: eq handle_ok_def wf_def)
  moreover have "one_live (fst (prompt t s))"
    using assms Some p by (auto simp: eq one_live_def wf_def nth_list_update)
  moreover have "listeners_ok (fst (prompt t s))"
    using assms Some p unfolding eq listeners_ok_def wf_def
    by (auto simp: nth_list_update less_Suc_eq split: if_splits)
  ultimately show ?thesis by (simp add: wf_def)
qed

lemma wf_exec: "wf s \<Longrightarrow> wf (exec ts ev s)"
  by (cases ev)
     (auto intro: wf_open_bot wf_close wf_prompt wf_shrinks shrinks_emit_data shrinks_emit_error)

lemma wf_run: "wf s \<Longrightarrow> wf (run ts evs s)"
  unfolding run_def by (induction evs arbitrary: s) (auto intro: wf_exec)

lemma constructor_bot: "constructor m cfg = Inr b \<Longrightarrow> bot b = None"
  by (auto simp: constructor_def split: if_splits)

lemma wf_reachable: "constructor m cfg = Inr b \<Longrightarrow> wf (run ts evs (initial b))"
  by (intro wf_run wf_initial constructor_bot)

lemma controller_bot_constructed:
  "constructor ''gpt4all-lora-quantized'' [] = Inr controller_bot"
  by (simp add: constructor_def controller_bot_def)

section \<open>One live process\<close>

lemma filter_eq_upt: "p < n \<Longrightarrow> filter (\<lambda>i. i = p) [0..<n] = [p]"
  by (induction n) (auto simp: less_Suc_eq)

lemma live_wf:
  assumes "wf s"
  shows "live s = (case bot (this s) of None \<Rightarrow> [] | Some p \<Rightarrow> [p])"
proof -
  have "live s = filter (\<lambda>i. bot (this s) = Some i) [0..<length (procs s)]"
    unfolding live_def using assms
    by (intro filter_cong) (auto simp: wf_def one_live_def)
  also have "\<dots> = (case bot (this s) of None \<Rightarrow> [] | Some p \<Rightarrow> [p])"
  proof (cases "bot (this s)")
    case None
    then show ?thesis by simp
  next
    case (Some p)
    with assms have "p < length (procs s)"
      by (simp add: wf_def handle_ok_def)
    then show ?thesis
      using Some filter_eq_upt [of p "length (procs s)"]
      by (simp add: eq_commute [of _ p])
  qed
  finally show ?thesis .
qed

lemma open_spawn_eq:
  "open_spawn ts s =
     s\<lparr> procs := procs s @ [(spawn (hd (spawnArgs ts (this s))) (tl (spawnArgs ts (this s))))
                 \<lparr> stdout := Some \<lparr> dataListeners = [ReadyListener (length (opened s))],
                                    errorListeners = [] \<rparr> \<rparr>],
        this := (this s)\<lparr> bot := Some (length (procs s)) \<rparr>,
        opened := opened s @ [Pending] \<rparr>"
  by (simp add: open_spawn_def Let_def bot_stdout_def the_bot_def on_data_def update_stdout_def
      spawn_def)

lemma open_ready:
  assumes "bot (this s) = None" and "str_includes chunk CHR ''>''"
  shows "opened (emit_data (length (procs s)) chunk (open_bot ts s)) ! length (opened s)
     = Fulfilled True"
  using assms
  by (simp add: open_bot_def open_spawn_eq emit_data_def throw_uncaught_def onReady_def spawn_def
      settle_def)

lemma close_noop: "bot (this s) = None \<Longrightarrow> close s = s"
  by (simp add: close_def bot_stdout_def the_bot_def)

text \<open>
  C3. In every state reached from a constructed Bot by calls of \<open>open\<close>, \<open>close\<close>
  and \<open>prompt\<close> and by events of the output streams, the processes on which \<open>kill\<close>
  was not called are exactly the process of the handle: none without a handle, one with
  it. When a handle exists, \<open>open\<close> is \<open>close\<close> followed by the spawn, and after
  that \<open>close\<close> no process is live. After \<open>open\<close>, and after a second \<open>open\<close>,
  exactly the newly spawned process is live and the handle refers to it. Without a
  handle \<open>close\<close> changes nothing and throws nothing, a following \<open>open\<close> spawns
  the one live process, and its promise is fulfilled by the first chunk with the sentinel.
\<close>

theorem single_live_handle:
  assumes "constructor m cfg = Inr b" and "s = run ts evs (initial b)"
  shows "live s = (case bot (this s) of None \<Rightarrow> [] | Some p \<Rightarrow> [p])
    \<and> (bot (this s) \<noteq> None \<longrightarrow>
          live (close s) = [] \<and> open_spawn ts (close s) = open_bot ts s)
    \<and> live (open_bot ts s) = [length (procs s)]
    \<and> bot (this (open_bot ts s)) = Some (length (procs s))
    \<and> live (open_bot ts (open_bot ts s)) = [Suc (length (procs s))]
    \<and> bot (this (open_bot ts (open_bot ts s))) = Some (Suc (length (procs s)))
    \<and> (bot (this s) = None \<longrightarrow>
          close s = s
          \<and> live (open_bot ts (close s)) = [length (procs s)]
          \<and> (str_includes chunk CHR ''>'' \<longrightarrow>
                opened (emit_data (length (procs s)) chunk (open_bot ts (close s))) ! length (opened s)
                  = Fulfilled True))"
proof -
  have w: "wf s"
    using assms by (simp add: wf_reachable)
  have l: "live s = (case bot (this s) of None \<Rightarrow> [] | Some p \<Rightarrow> [p])"
    by (rule live_wf [OF w])
  have c: "live (close s) = []" if "bot (this s) \<noteq> None"
    using live_wf [OF wf_close [OF w]] close_bot_None [OF w that] by simp
  have o: "bot (this (open_bot ts t)) = Some (length (procs t))" for t :: "'a system"
    by (simp add: open_bot_def open_spawn_eq close_length_procs)
  have lo: "live (open_bot ts t) = [length (procs t)]" if "wf t" for t :: "'a system"
    using live_wf [OF wf_open_bot [OF that, of ts]] by (simp add: o)
  have len: "length (procs (open_bot ts s)) = Suc (length (procs s))"
    by (simp add: open_bot_def open_spawn_eq close_length_procs)
  have "live (open_bot ts (open_bot ts s)) = [Suc (length (procs s))]"
    using lo [OF wf_open_bot [OF w, of ts]] len by simp
  moreover have "bot (this (open_bot ts (open_bot ts s))) = Some (Suc (length (procs s)))"
    using o [of "open_bot ts s"] len by simp
  moreover have "bot (this s) \<noteq> None \<longrightarrow> open_spawn ts (close s) = open_bot ts s"
    by (simp add: open_bot_def)
  moreover have "bot (this s) = None \<longrightarrow>
          close s = s
          \<and> live (open_bot ts (close s)) = [length (procs s)]
          \<and> (str_includes chunk CHR ''>'' \<longrightarrow>
                opened (emit_data (length (procs s)) chunk (open_bot ts (close s))) ! length (opened s)
                  = Fulfilled True)"
    using lo [OF w] by (auto simp: close_noop open_ready)
  ultimately show ?thesis
    using l c lo [OF w] o [of s] by blast
qed

theorem single_live_handle_witness:
  "constructor ''gpt4all-lora-quantized'' [] = Inr controller_bot
   \<and> bot (this (run (\<lambda>v. v) [Open, Prompt ''hi''] (initial controller_bot))) = Some 0
   \<and> live (run (\<lambda>v. v) [Open, Prompt ''hi''] (initial controller_bot)) = [0]
   \<and> live (close (run (\<lambda>v. v) [Open, Prompt ''hi''] (initial controller_bot))) = []
   \<and> live (open_bot (\<lambda>v. v) (run (\<lambda>v. v) [Open, Prompt ''hi''] (initial controller_bot))) = [1]
   \<and> bot (this (run (\<lambda>v. v) [] (initial controller_bot))) = None
   \<and> close (run (\<lambda>v. v) [] (initial controller_bot)) = run (\<lambda>v. v) [] (initial controller_bot)
   \<and> live (open_bot (\<lambda>v. v) (close (run (\<lambda>v. v) [] (initial controller_bot)))) = [0]
   \<and> opened (emit_data 0 ''> '' (open_bot (\<lambda>v. v) (close (run (\<lambda>v. v) [] (initial controller_bot))))) ! 0
       = Fulfilled True"
proof -
  let ?s = "run (\<lambda>v. v) [Open, Prompt ''hi''] (initial controller_bot)"
  let ?i = "run (\<lambda>v. v) [] (initial controller_bot)"
  have b: "bot (this ?s) = Some 0" "length (procs ?s) = 1"
    by code_simp+
  have n: "bot (this ?i) = None" "length (procs ?i) = 0" "length (opened ?i) = 0"
    by code_simp+
  have g: "str_includes ''> '' CHR ''>''"
    by code_simp
  have ne: "bot (this ?s) \<noteq> None"
    using b(1) by simp
  have c: "(case bot (this ?s) of None \<Rightarrow> [] | Some p \<Rightarrow> [p]) = [0]"
    using b(1) by simp
  have "live ?s = [0] \<and> live (close ?s) = [] \<and> live (open_bot (\<lambda>v. v) ?s) = [1]"
    using single_live_handle [OF controller_bot_constructed refl, of "\<lambda>v. v" "[Open, Prompt ''hi'']"]
      ne
    unfolding c b(2) by blast
  moreover
  have "close ?i = ?i \<and> live (open_bot (\<lambda>v. v) (close ?i)) = [0]
      \<and> opened (emit_data 0 ''> '' (open_bot (\<lambda>v. v) (close ?i))) ! 0 = Fulfilled True"
    using single_live_handle [OF controller_bot_constructed refl, of "\<lambda>v. v" "[]" "''> ''"]
      n(1) g
    unfolding n(2) n(3) by blast
  ultimately show ?thesis
    using b(1) n(1) controller_bot_constructed by blast
qed

section \<open>Listener calls on the current process\<close>

lemma detach_eq:
  assumes "p < length (procs s)" and "stdout (procs s ! p) = Some out"
  shows "detach p k s =
    s\<lparr> procs := (procs s)[p := (procs s ! p)
          \<lparr> stdout := Some (out\<lparr> dataListeners := removeListener (OnStdoutData k) (dataListeners out),
                                errorListeners := removeListener k (errorListeners out) \<rparr>) \<rparr>] \<rparr>"
  using assms
  by (simp add: detach_def remove_error_def remove_data_def update_stdout_def)

lemma onStdoutError_eq:
  assumes "bot (this s) = Some p" and "p < length (procs s)" and "stdout (procs s ! p) = Some out"
  shows "onStdoutError k err s = (reject k err (detach p k s), None)"
  using assms by (simp add: onStdoutError_def bot_stdout_def the_bot_def detach_def)


lemma settle_settle: "settle v (settle v x) = settle v x"
  by (cases x; cases v) (simp_all add: settle_def)

lemma settle_Pending: "settle v Pending = v"
  by (simp add: settle_def)

lemma detach_facts:
  assumes "current p s"
  shows "current p (detach p k s)"
    and "data_listeners p (detach p k s) = removeListener (OnStdoutData k) (data_listeners p s)"
    and "error_listeners p (detach p k s) = removeListener k (error_listeners p s)"
    and "exchanges (detach p k s) = exchanges s"
    and "uncaught (detach p k s) = uncaught s"
    and "this (detach p k s) = this s"
proof -
  from assms obtain out where p: "p < length (procs s)" "stdout (procs s ! p) = Some out"
    and b: "bot (this s) = Some p"
    by (auto simp: current_def)
  note eq = detach_eq [OF p]
  show "current p (detach p k s)"
    using p b by (simp add: eq current_def)
  show "data_listeners p (detach p k s) = removeListener (OnStdoutData k) (data_listeners p s)"
    using p by (simp add: eq data_listeners_def)
  show "error_listeners p (detach p k s) = removeListener k (error_listeners p s)"
    using p by (simp add: eq error_listeners_def)
  show "exchanges (detach p k s) = exchanges s" "uncaught (detach p k s) = uncaught s"
    "this (detach p k s) = this s"
    by (simp_all add: eq)
qed

lemma same_procs:
  assumes "procs s' = procs s" and "this s' = this s"
  shows "current p s' = current p s"
    and "data_listeners p s' = data_listeners p s"
    and "error_listeners p s' = error_listeners p s"
  using assms by (simp_all add: current_def data_listeners_def error_listeners_def)

lemma reject_facts:
  "procs (reject k e s) = procs s" "this (reject k e s) = this s"
  "uncaught (reject k e s) = uncaught s"
  "length (exchanges (reject k e s)) = length (exchanges s)"
  "j < length (exchanges s) \<Longrightarrow> exchanges (reject k e s) ! j =
     (if j = k then (exchanges s ! j)\<lparr> settled := settle (RejectedWith e) (settled (exchanges s ! j)) \<rparr>
      else exchanges s ! j)"
  by (auto simp: reject_def nth_list_update)

lemma onStdoutError_step:
  assumes "current p s"
  shows "\<exists>s1. onStdoutError k err s = (s1, None) \<and> current p s1
      \<and> uncaught s1 = uncaught s \<and> length (exchanges s1) = length (exchanges s)
      \<and> data_listeners p s1 = removeListener (OnStdoutData k) (data_listeners p s)
      \<and> error_listeners p s1 = removeListener k (error_listeners p s)
      \<and> (\<forall>j < length (exchanges s). exchanges s1 ! j =
           (if j = k then (exchanges s ! j)\<lparr> settled := settle (RejectedWith err) (settled (exchanges s ! j)) \<rparr>
            else exchanges s ! j))"
proof -
  from assms obtain out where p: "p < length (procs s)" "stdout (procs s ! p) = Some out"
    and b: "bot (this s) = Some p"
    by (auto simp: current_def)
  let ?d = "detach p k s"
  have "onStdoutError k err s = (reject k err ?d, None)"
    by (rule onStdoutError_eq [OF b p])
  moreover have "current p (reject k err ?d)"
    using detach_facts(1) [OF assms, of k]
    by (simp add: same_procs(1) [of "reject k err ?d" ?d] reject_facts)
  moreover have "data_listeners p (reject k err ?d) = removeListener (OnStdoutData k) (data_listeners p s)"
    using detach_facts(2) [OF assms, of k]
    by (simp add: same_procs(2) [of "reject k err ?d" ?d] reject_facts)
  moreover have "error_listeners p (reject k err ?d) = removeListener k (error_listeners p s)"
    using detach_facts(3) [OF assms, of k]
    by (simp add: same_procs(3) [of "reject k err ?d" ?d] reject_facts)
  moreover have "uncaught (reject k err ?d) = uncaught s"
    "length (exchanges (reject k err ?d)) = length (exchanges s)"
    by (simp_all add: reject_facts detach_facts(4,5) [OF assms])
  moreover have "\<forall>j < length (exchanges s). exchanges (reject k err ?d) ! j =
           (if j = k then (exchanges s ! j)\<lparr> settled := settle (RejectedWith err) (settled (exchanges s ! j)) \<rparr>
            else exchanges s ! j)"
    by (simp add: reject_facts detach_facts(4) [OF assms])
  ultimately show ?thesis by blast
qed

lemma foldl_removeListener:
  "distinct xs \<Longrightarrow> foldl (\<lambda>a k. removeListener (f k) a) xs ks = filter (\<lambda>x. x \<notin> f ` set ks) xs"
proof (induction ks arbitrary: xs)
  case Nil
  then show ?case by simp
next
  case (Cons k ks)
  have "foldl (\<lambda>a k. removeListener (f k) a) (removeListener (f k) xs) ks
      = filter (\<lambda>x. x \<notin> f ` set ks) (removeListener (f k) xs)"
    using Cons.prems by (intro Cons.IH distinct_removeListener)
  also have "\<dots> = filter (\<lambda>x. x \<notin> f ` set (k # ks)) xs"
    using Cons.prems by (auto simp: removeListener_distinct intro: filter_cong)
  finally show ?case by simp
qed

lemma emit_errors:
  assumes "current p s"
  shows "\<exists>s'. emit (map (\<lambda>k. onStdoutError k err) ks) s = (s', None) \<and> current p s'
      \<and> uncaught s' = uncaught s \<and> length (exchanges s') = length (exchanges s)
      \<and> data_listeners p s' = foldl (\<lambda>a k. removeListener (OnStdoutData k) a) (data_listeners p s) ks
      \<and> error_listeners p s' = foldl (\<lambda>a k. removeListener k a) (error_listeners p s) ks
      \<and> (\<forall>j < length (exchanges s).
            response (exchanges s' ! j) = response (exchanges s ! j)
            \<and> settled (exchanges s' ! j) =
                (if j \<in> set ks then settle (RejectedWith err) (settled (exchanges s ! j))
                 else settled (exchanges s ! j)))"
  using assms
proof (induction ks arbitrary: s)
  case Nil
  then show ?case by simp
next
  case (Cons k ks)
  from onStdoutError_step [OF Cons.prems, of k err]
  obtain s1 where s1: "onStdoutError k err s = (s1, None)" "current p s1"
      "uncaught s1 = uncaught s" "length (exchanges s1) = length (exchanges s)"
      "data_listeners p s1 = removeListener (OnStdoutData k) (data_listeners p s)"
      "error_listeners p s1 = removeListener k (error_listeners p s)"
      "\<forall>j < length (exchanges s). exchanges s1 ! j =
           (if j = k then (exchanges s ! j)\<lparr> settled := settle (RejectedWith err) (settled (exchanges s ! j)) \<rparr>
            else exchanges s ! j)"
    by blast
  from Cons.IH [OF s1(2)]
  obtain s' where s': "emit (map (\<lambda>k. onStdoutError k err) ks) s1 = (s', None)" "current p s'"
      "uncaught s' = uncaught s1" "length (exchanges s') = length (exchanges s1)"
      "data_listeners p s' = foldl (\<lambda>a k. removeListener (OnStdoutData k) a) (data_listeners p s1) ks"
      "error_listeners p s' = foldl (\<lambda>a k. removeListener k a) (error_listeners p s1) ks"
      "\<forall>j < length (exchanges s1).
            response (exchanges s' ! j) = response (exchanges s1 ! j)
            \<and> settled (exchanges s' ! j) =
                (if j \<in> set ks then settle (RejectedWith err) (settled (exchanges s1 ! j))
                 else settled (exchanges s1 ! j))"
    by blast
  have "emit (map (\<lambda>k. onStdoutError k err) (k # ks)) s = (s', None)"
    using s1(1) s'(1) by simp
  moreover have "\<forall>j < length (exchanges s).
            response (exchanges s' ! j) = response (exchanges s ! j)
            \<and> settled (exchanges s' ! j) =
                (if j \<in> set (k # ks) then settle (RejectedWith err) (settled (exchanges s ! j))
                 else settled (exchanges s ! j))"
    using s1(4,7) s'(7) by (auto simp: settle_settle)
  ultimately show ?case
    using s1 s' by auto
qed

lemma wf_current: "wf s \<Longrightarrow> bot (this s) = Some p \<Longrightarrow> current p s"
  by (auto simp: wf_def handle_ok_def current_def)

lemma wf_listeners_aux:
  assumes "wf s"
  shows "distinct (data_listeners p s) \<and> distinct (error_listeners p s)
    \<and> (\<forall>k. OnStdoutData k \<in> set (data_listeners p s) \<longrightarrow> k < length (exchanges s))
    \<and> (\<forall>k \<in> set (error_listeners p s). k < length (exchanges s))"
proof (cases "p < length (procs s)")
  case False
  then show ?thesis by (simp add: data_listeners_def error_listeners_def)
next
  case True
  show ?thesis
  proof (cases "stdout (procs s ! p)")
    case None
    with True show ?thesis by (simp add: data_listeners_def error_listeners_def)
  next
    case (Some out)
    with True assms have "distinct (dataListeners out) \<and> distinct (errorListeners out)
        \<and> (\<forall>k. OnStdoutData k \<in> set (dataListeners out) \<longrightarrow> k < length (exchanges s))
        \<and> (\<forall>k \<in> set (errorListeners out). k < length (exchanges s))"
      unfolding wf_def listeners_ok_def by blast
    with True Some show ?thesis by (simp add: data_listeners_def error_listeners_def)
  qed
qed

lemma wf_listeners:
  assumes "wf s"
  shows "distinct (data_listeners p s)" and "distinct (error_listeners p s)"
    and "OnStdoutData k \<in> set (data_listeners p s) \<Longrightarrow> k < length (exchanges s)"
    and "k \<in> set (error_listeners p s) \<Longrightarrow> k < length (exchanges s)"
  using wf_listeners_aux [OF assms, of p] by blast+

lemma emit_error_current:
  assumes "current p s"
  shows "emit_error p err s =
    (if error_listeners p s = [] then throw_uncaught (s, Some err)
     else throw_uncaught (emit (map (\<lambda>k. onStdoutError k err) (error_listeners p s)) s))"
  using assms by (auto simp: emit_error_def current_def error_listeners_def)

section \<open>Stream errors\<close>

text \<open>
  C5, at a failing input: a call of \<open>prompt\<close> is in flight, \<open>close\<close> clears the handle,
  and the output stream of the killed process emits an error. \<open>onStdoutError\<close> finds
  no handle and throws inside the listener instead of rejecting: the promise stays
  pending, the data and the error listener of the call stay attached, and the exception
  is uncaught. The comment of \<open>onStdoutError\<close> says that it "rejects with an error if
  the bot is not initialized", and the same test in the executor of the promise does
  reject.
\<close>

theorem stream_error_after_close:
  "exchanges (run (\<lambda>v. v) [Open, Data 0 ''>'', Prompt ''hi'', Close, StreamError 0 (Error ''EPIPE'')]
               (initial controller_bot))
     = [\<lparr> response = [], settled = Pending \<rparr>]
   \<and> map stdout (procs (run (\<lambda>v. v) [Open, Data 0 ''>'', Prompt ''hi'', Close, StreamError 0 (Error ''EPIPE'')]
               (initial controller_bot)))
     = [Some \<lparr> dataListeners = [ReadyListener 0, OnStdoutData 0], errorListeners = [0] \<rparr>]
   \<and> uncaught (run (\<lambda>v. v) [Open, Data 0 ''>'', Prompt ''hi'', Close, StreamError 0 (Error ''EPIPE'')]
               (initial controller_bot))
     = [not_initialized]"
  by code_simp

text \<open>
  While the handle still refers to the process, the error is handled. In every state
  reached from a constructed Bot, if the handle refers to process \<open>p\<close>, the
  \<open>onStdoutError\<close> listener of exchange \<open>k\<close> is attached to the output stream of
  \<open>p\<close>, and the promise of \<open>k\<close> is pending, then an error event of that stream
  rejects the promise with the error, removes the data and the error listener of \<open>k\<close>
  from the stream, and throws nothing.
\<close>

theorem stream_error_rejects:
  assumes "constructor m cfg = Inr b" and "s = run ts evs (initial b)"
    and "bot (this s) = Some p"
    and "k \<in> set (error_listeners p s)"
    and "settled (exchanges s ! k) = Pending"
  shows "settled (exchanges (emit_error p err s) ! k) = RejectedWith err
       \<and> k \<notin> set (error_listeners p (emit_error p err s))
       \<and> OnStdoutData k \<notin> set (data_listeners p (emit_error p err s))
       \<and> uncaught (emit_error p err s) = uncaught s"
proof -
  have w: "wf s"
    using assms(1,2) by (simp add: wf_reachable)
  have c: "current p s"
    using wf_current [OF w assms(3)] .
  have k: "k < length (exchanges s)"
    using wf_listeners(4) [OF w assms(4)] .
  let ?ks = "error_listeners p s"
  from emit_errors [OF c, of err ?ks]
  obtain s' where s': "emit (map (\<lambda>k. onStdoutError k err) ?ks) s = (s', None)"
      "uncaught s' = uncaught s"
      "data_listeners p s' = foldl (\<lambda>a k. removeListener (OnStdoutData k) a) (data_listeners p s) ?ks"
      "error_listeners p s' = foldl (\<lambda>a k. removeListener k a) (error_listeners p s) ?ks"
      "\<forall>j < length (exchanges s).
            response (exchanges s' ! j) = response (exchanges s ! j)
            \<and> settled (exchanges s' ! j) =
                (if j \<in> set ?ks then settle (RejectedWith err) (settled (exchanges s ! j))
                 else settled (exchanges s ! j))"
    by blast
  have e: "emit_error p err s = s'"
    using assms(4) s'(1) by (auto simp: emit_error_current [OF c] throw_uncaught_def)
  have "settled (exchanges s' ! k) = RejectedWith err"
    using s'(5) k assms(4,5) by (simp add: settle_Pending)
  moreover have "k \<notin> set (error_listeners p s')"
    using assms(4) foldl_removeListener [OF wf_listeners(2) [OF w], of "\<lambda>k. k" p ?ks]
    by (simp add: s'(4))
  moreover have "OnStdoutData k \<notin> set (data_listeners p s')"
    using assms(4) foldl_removeListener [OF wf_listeners(1) [OF w], of OnStdoutData p ?ks]
    by (simp add: s'(3))
  ultimately show ?thesis
    using s'(2) e by simp
qed

theorem stream_error_rejects_witness:
  "constructor ''gpt4all-lora-quantized'' [] = Inr controller_bot
   \<and> bot (this (run (\<lambda>v. v) [Open, Data 0 ''>'', Prompt ''hi''] (initial controller_bot))) = Some 0
   \<and> 0 \<in> set (error_listeners 0 (run (\<lambda>v. v) [Open, Data 0 ''>'', Prompt ''hi''] (initial controller_bot)))
   \<and> settled (exchanges (run (\<lambda>v. v) [Open, Data 0 ''>'', Prompt ''hi''] (initial controller_bot)) ! 0) = Pending
   \<and> settled (exchanges (emit_error 0 (Error ''EPIPE'')
        (run (\<lambda>v. v) [Open, Data 0 ''>'', Prompt ''hi''] (initial controller_bot))) ! 0)
       = RejectedWith (Error ''EPIPE'')
   \<and> 0 \<notin> set (error_listeners 0 (emit_error 0 (Error ''EPIPE'')
        (run (\<lambda>v. v) [Open, Data 0 ''>'', Prompt ''hi''] (initial controller_bot))))
   \<and> OnStdoutData 0 \<notin> set (data_listeners 0 (emit_error 0 (Error ''EPIPE'')
        (run (\<lambda>v. v) [Open, Data 0 ''>'', Prompt ''hi''] (initial controller_bot))))"
proof -
  let ?s = "run (\<lambda>v. v) [Open, Data 0 ''>'', Prompt ''hi''] (initial controller_bot)"
  have b: "bot (this ?s) = Some 0"
    by code_simp
  have l: "error_listeners 0 ?s = [0]"
    by code_simp
  then have m: "0 \<in> set (error_listeners 0 ?s)"
    by simp
  have p: "settled (exchanges ?s ! 0) = Pending"
    by code_simp
  from stream_error_rejects [OF controller_bot_constructed refl b m p, of "Error ''EPIPE''"]
  show ?thesis
    using b m p controller_bot_constructed by blast
qed

section \<open>Chunks on the current process\<close>























section \<open>Two exchanges at once\<close>




section \<open>What init downloads\<close>

lemma upstream_not_model: "fst (upstream env) = Inr url \<Longrightarrow> url \<noteq> modelUrl b"
  by (auto simp: upstream_def modelUrl_def split: if_splits sum.splits)

lemma HttpGet_downloadFile:
  "HttpGet u \<in> set (effects (downloadFile env url dest)) \<longleftrightarrow> u = url"
  by (auto simp: downloadFile_def split: option.splits)

lemma HttpGet_upstream: "HttpGet u \<notin> set (snd (upstream env))"
  by (auto simp: upstream_def split: sum.splits)

lemma HttpGet_downloadExecutable:
  "HttpGet u \<in> set (effects (downloadExecutable env b)) \<longleftrightarrow> fst (upstream env) = Inr u"
proof (cases "upstream env")
  case (Pair r effs)
  with HttpGet_upstream [of u env] have n: "HttpGet u \<notin> set effs"
    by simp
  show ?thesis
  proof (cases r)
    case (Inl e)
    with Pair n show ?thesis by (simp add: downloadExecutable_def)
  next
    case (Inr url)
    with Pair n show ?thesis
      by (cases "outcome (downloadFile env url (executablePath b))")
         (auto simp: downloadExecutable_def Let_def HttpGet_downloadFile)
  qed
qed

lemma HttpGet_downloadModel:
  "HttpGet u \<in> set (effects (downloadModel env b)) \<longleftrightarrow> u = modelUrl b"
  by (cases "outcome (downloadFile env (modelUrl b) (modelPath b))")
     (auto simp: downloadModel_def Let_def HttpGet_downloadFile)

lemma HttpGet_init:
  "HttpGet u \<in> set (effects (init env b)) \<longleftrightarrow>
     (\<not> existsSync env (executablePath b) \<and> fst (upstream env) = Inr u)
     \<or> (\<not> existsSync env (modelPath b) \<and> u = modelUrl b)"
  by (auto simp: init_def Let_def downloadPromises_def HttpGet_downloadExecutable
      HttpGet_downloadModel split: sum.splits)

text \<open>
  C7. When the executable and the model file both exist, \<open>init\<close> is fulfilled having
  done nothing but log "Bot initialized.": no request, no directory, no file, no
  permission change. In general the tasks it starts are \<open>downloadExecutable\<close> if the
  executable is missing and \<open>downloadModel\<close> if the model file is missing, each
  independently of the other, all started before the one \<open>Promise.all\<close> that awaits
  them; the model address is requested exactly when the model file is missing, and the
  executable address of the platform exactly when the executable is missing.
\<close>

theorem init_idempotent:
  "(existsSync env (executablePath b) \<and> existsSync env (modelPath b) \<longrightarrow>
      init env b = \<lparr> outcome = Inr (), effects = [Log ''Bot initialized.''], thrown = [] \<rparr>)
   \<and> downloadPromises env b =
       (if existsSync env (executablePath b) then [] else [downloadExecutable env b])
       @ (if existsSync env (modelPath b) then [] else [downloadModel env b])
   \<and> outcome (init env b) = promise_all (downloadPromises env b)
   \<and> (HttpGet (modelUrl b) \<in> set (effects (init env b)) \<longleftrightarrow> \<not> existsSync env (modelPath b))
   \<and> (\<forall>url. fst (upstream env) = Inr url \<longrightarrow>
         (HttpGet url \<in> set (effects (init env b)) \<longleftrightarrow> \<not> existsSync env (executablePath b)))"
proof -
  have "init env b = \<lparr> outcome = Inr (), effects = [Log ''Bot initialized.''], thrown = [] \<rparr>"
    if "existsSync env (executablePath b)" "existsSync env (modelPath b)"
    using that by (simp add: init_def downloadPromises_def)
  moreover have "downloadPromises env b =
       (if existsSync env (executablePath b) then [] else [downloadExecutable env b])
       @ (if existsSync env (modelPath b) then [] else [downloadModel env b])"
    by (simp add: downloadPromises_def)
  moreover have "outcome (init env b) = promise_all (downloadPromises env b)"
    by (simp add: init_def Let_def)
  moreover have "HttpGet (modelUrl b) \<in> set (effects (init env b)) \<longleftrightarrow> \<not> existsSync env (modelPath b)"
    using upstream_not_model [of env "modelUrl b" b] by (auto simp: HttpGet_init)
  moreover have "HttpGet url \<in> set (effects (init env b)) \<longleftrightarrow> \<not> existsSync env (executablePath b)"
    if "fst (upstream env) = Inr url" for url
    using that upstream_not_model [OF that, of b] by (auto simp: HttpGet_init)
  ultimately show ?thesis by blast
qed

theorem init_idempotent_witness:
  "existsSync provisioned (executablePath controller_bot)
   \<and> existsSync provisioned (modelPath controller_bot)
   \<and> init provisioned controller_bot
       = \<lparr> outcome = Inr (), effects = [Log ''Bot initialized.''], thrown = [] \<rparr>
   \<and> fst (upstream provisioned)
       = Inr ''https://github.com/nomic-ai/gpt4all/blob/main/chat/gpt4all-lora-quantized-linux-x86?raw=true''
   \<and> HttpGet ''https://github.com/nomic-ai/gpt4all/blob/main/chat/gpt4all-lora-quantized-linux-x86?raw=true''
       \<notin> set (effects (init provisioned controller_bot))"
proof -
  have e: "existsSync provisioned (executablePath controller_bot)"
      "existsSync provisioned (modelPath controller_bot)"
    by (simp_all add: provisioned_def)
  have u: "fst (upstream provisioned)
       = Inr ''https://github.com/nomic-ai/gpt4all/blob/main/chat/gpt4all-lora-quantized-linux-x86?raw=true''"
    by (simp add: upstream_def provisioned_def)
  from init_idempotent [of provisioned controller_bot] e u show ?thesis
    by blast
qed

text \<open>
  C6, at a failing \<open>chmod\<close>: nothing is downloaded yet, every download succeeds, and
  \<open>fs.chmod\<close> reports an error to its callback. \<open>downloadExecutable\<close> has called
  \<open>fs.chmod\<close> with mode \<open>0o755\<close>, but the \<open>throw err\<close> of the callback happens outside
  the promise: \<open>init\<close> is fulfilled, and the error is an uncaught exception.
\<close>

theorem chmod_failure_not_surfaced:
  "outcome (init chmod_fails controller_bot) = Inr ()
   \<and> thrown (init chmod_fails controller_bot) = [Error ''EPERM: operation not permitted'']
   \<and> Chmod ''./executables/builtBot'' mode_755 \<in> set (effects (init chmod_fails controller_bot))
   \<and> Log ''Bot initialized.'' \<in> set (effects (init chmod_fails controller_bot))"
  by code_simp

end
